theory Spec2Isabelle
  imports Main "HOL-Library.Sublist"
begin

section \<open>SumTube: the request handler of App.py\<close>

text \<open>
  App.py holds four functions: \<open>extract_youtube_id\<close>, \<open>fetch_youtube_transcript\<close>,
  \<open>summarize_transcript_with_gemini\<close> and the endpoint \<open>get_summary\<close>. The first is
  pure string processing; the other three call the transcript library, the process
  environment and the completion service, which are parameters of the model.

  A Python \<open>str\<close> is modelled as \<open>string\<close>, one \<open>char\<close> for one code point; the
  model covers the code points below 256.
\<close>

subsection \<open>Exceptions\<close>

text \<open>
  The values of this type are instances of Python's class \<open>Exception\<close>: the three
  classes the program meets by name, and \<open>OtherException cls msg\<close> for whatever a
  library raises. \<open>EnvironmentError\<close> is the name App.py uses for \<open>OSError\<close>.
\<close>

datatype exn =
    ValueError string
  | IndexError string
  | EnvironmentError string
  | OtherException string string

subsection \<open>The string operations of Python that App.py uses\<close>

text \<open>\<open>sub in s\<close>: does \<open>sub\<close> occur in \<open>s\<close> as a contiguous run.\<close>

fun str_in :: "string \<Rightarrow> string \<Rightarrow> bool" where
  "str_in sub [] = (sub = [])"
| "str_in sub (c # cs) = (prefix sub (c # cs) \<or> str_in sub cs)"

text \<open>
  \<open>s.split(sep)\<close> scans from the left, cuts at each occurrence of \<open>sep\<close> and goes
  on behind it. \<open>split_acc sep cur s\<close> is the scan, \<open>cur\<close> holding the piece under
  construction. An empty separator raises \<open>ValueError\<close>.
\<close>

function split_acc :: "string \<Rightarrow> string \<Rightarrow> string \<Rightarrow> string list" where
  "split_acc sep cur s =
     (if s = [] then [cur]
      else if sep \<noteq> [] \<and> prefix sep s then cur # split_acc sep [] (drop (length sep) s)
      else split_acc sep (cur @ [hd s]) (tl s))"
  by pat_completeness auto
termination
  by (relation "measure (\<lambda>(sep, cur, s). length s)") auto

declare split_acc.simps [simp del]

definition split :: "string \<Rightarrow> string \<Rightarrow> exn + string list" where
  "split s sep =
     (if sep = [] then Inl (ValueError ''empty separator'') else Inr (split_acc sep [] s))"

text \<open>\<open>xs[i]\<close>: a negative index counts from the end; out of range raises.\<close>

definition index :: "'a list \<Rightarrow> int \<Rightarrow> exn + 'a" where
  "index xs i =
     (let k = (if i < 0 then int (length xs) + i else i)
      in if k < 0 \<or> int (length xs) \<le> k
         then Inl (IndexError ''list index out of range'')
         else Inr (xs ! nat k))"

text \<open>\<open>s.rstrip(chars)\<close> drops every trailing character that is in \<open>chars\<close>.\<close>

definition rstrip :: "string \<Rightarrow> string \<Rightarrow> string" where
  "rstrip s chars = rev (dropWhile (\<lambda>c. c \<in> set chars) (rev s))"

subsection \<open>extract_youtube_id\<close>

text \<open>
  \<^verbatim>\<open>
  if "youtube.com/watch?v=" in url:
      return url.split("v=")[1].split("&")[0]
  elif "youtu.be/" in url:
      return url.rstrip('/').split("/")[-1]
  else:
      raise ValueError("Invalid YouTube URL")
  \<close>
\<close>

definition extract_youtube_id :: "string \<Rightarrow> exn + string" where
  "extract_youtube_id url =
     (if str_in ''youtube.com/watch?v='' url then
        (case split url ''v='' of
           Inl e \<Rightarrow> Inl e
         | Inr ps \<Rightarrow>
            (case index ps 1 of
               Inl e \<Rightarrow> Inl e
             | Inr p \<Rightarrow>
                (case split p ''&'' of
                   Inl e \<Rightarrow> Inl e
                 | Inr qs \<Rightarrow> index qs 0)))
      else if str_in ''youtu.be/'' url then
        (case split (rstrip url ''/'') ''/'' of
           Inl e \<Rightarrow> Inl e
         | Inr ps \<Rightarrow> index ps (- 1))
      else Inl (ValueError ''Invalid YouTube URL''))"

subsection \<open>Whitespace, strip, join and truthiness\<close>

text \<open>
  The characters that \<open>str.strip()\<close> without argument removes (those for which
  \<open>str.isspace\<close> holds), among the code points below 256: tab to carriage return,
  the four separators 0x1C to 0x1F, the space, NEL (0x85) and the no-break space (0xA0).
\<close>

definition isspace :: "char \<Rightarrow> bool" where
  "isspace c =
     (let n = (of_char c :: nat)
      in (9 \<le> n \<and> n \<le> 13) \<or> (28 \<le> n \<and> n \<le> 32) \<or> n = 133 \<or> n = 160)"

definition strip :: "string \<Rightarrow> string" where
  "strip s = rev (dropWhile isspace (rev (dropWhile isspace s)))"

text \<open>\<open>sep.join(xs)\<close>.\<close>

fun join :: "string \<Rightarrow> string list \<Rightarrow> string" where
  "join sep [] = []"
| "join sep [x] = x"
| "join sep (x # y # ys) = x @ sep @ join sep (y # ys)"

text \<open>
  The truth value Python gives a value of type \<open>Optional[str]\<close> in a condition:
  \<open>None\<close> and the empty string are false.
\<close>

fun truthy :: "string option \<Rightarrow> bool" where
  "truthy None = False"
| "truthy (Some s) = (s \<noteq> [])"

subsection \<open>The collaborators\<close>

text \<open>
  A caption entry as \<open>to_raw_data()\<close> returns it. App.py reads the key \<open>text\<close>
  only (the field \<open>entry_text\<close>); the timing keys (\<open>start\<close>, \<open>duration\<close>) are the extension part of the record,
  so the functions below take an \<open>'a entry_scheme\<close>.
\<close>

record entry =
  entry_text :: string

text \<open>
  Modelled from the spec: the types of the google-genai library that App.py builds and
  reads (\<open>types.Part\<close>, \<open>types.Content\<close>, a candidate, the response and the client)
  are not part of the repository. The spec says of them that the summarizer "returns the
  first candidate's first content part's text verbatim"; the request is one \<open>Content\<close>
  with role \<open>user\<close> and one text part.
\<close>

datatype part = Part (part_text: string)

datatype content = Content (role: string) (parts: "part list")

datatype candidate = Candidate (content: content)

datatype response = Response (candidates: "candidate list")

datatype client = Client (api_key: string)

text \<open>
  What a request sees of the outside: the transcript library
  (\<open>YouTubeTranscriptApi().fetch(video_id).to_raw_data()\<close>), the process environment
  after \<open>load_dotenv()\<close>, the constructor \<open>genai.Client\<close> and
  \<open>client.models.generate_content\<close>. Each of the three calls either raises or returns.
\<close>

record 'a world =
  ytt_fetch :: "string \<Rightarrow> exn + 'a entry_scheme list"
  getenv :: "string \<Rightarrow> string option"
  genai_Client :: "string \<Rightarrow> exn + client"
  generate_content :: "client \<Rightarrow> string \<Rightarrow> content list \<Rightarrow> exn + response"

text \<open>The calls a function makes to the collaborators, in the order it makes them.\<close>

datatype event =
    FetchTranscript string
  | NewClient string
  | GenerateContent client string "content list"

subsection \<open>fetch_youtube_transcript\<close>

text \<open>
  \<^verbatim>\<open>
  try:
      ytt_api = YouTubeTranscriptApi()
      transcript = ytt_api.fetch(video_id).to_raw_data()
      all_text = " ".join(entry["text"] for entry in transcript)
      return all_text if all_text.strip() else None
  except Exception:
      return None
  \<close>
\<close>

definition fetch_youtube_transcript :: "'a world \<Rightarrow> string \<Rightarrow> string option \<times> event list" where
  "fetch_youtube_transcript w video_id =
     ((case ytt_fetch w video_id of
         Inl e \<Rightarrow> None
       | Inr transcript \<Rightarrow>
           (let all_text = join '' '' (map entry_text transcript)
            in if strip all_text \<noteq> [] then Some all_text else None)),
      [FetchTranscript video_id])"

subsection \<open>summarize_transcript_with_gemini\<close>

definition missing_key_message :: string where
  "missing_key_message =
     ''GEMINI_API_KEY environment variable not set. Please set it in your .env file or system environment.''"

definition model_name :: string where
  "model_name = ''gemini-2.5-pro''"

text \<open>The f-string of the source, with its line breaks.\<close>

definition prompt :: "string \<Rightarrow> string" where
  \<open>prompt transcript =
     ''Based on the following transcription please give me the summary in a json format like this:\<newline>''
     @ ''{\<newline>''
     @ ''   "Topic name" : "name of the topic",\<newline>''
     @ ''   "Topic summary" : "Summary of the topic"\<newline>''
     @ ''}\<newline>''
     @ ''Transcription:\<newline>''
     @ transcript
     @ ''\<newline>''\<close>

text \<open>
  \<^verbatim>\<open>
  api_key = os.getenv("GEMINI_API_KEY")
  if not api_key:
      raise EnvironmentError("GEMINI_API_KEY environment variable not set. ...")
  client = genai.Client(api_key=api_key)
  model = "gemini-2.5-pro"
  prompt = f"""..."""
  contents = [types.Content(role="user", parts=[types.Part.from_text(text=prompt)])]
  response = client.models.generate_content(model=model, contents=contents)
  return response.candidates[0].content.parts[0].text
  \<close>
\<close>

definition summarize_transcript_with_gemini ::
  "'a world \<Rightarrow> string \<Rightarrow> (exn + string) \<times> event list" where
  "summarize_transcript_with_gemini w transcript =
     (case (if truthy (getenv w ''GEMINI_API_KEY'') then getenv w ''GEMINI_API_KEY'' else None) of
        None \<Rightarrow> (Inl (EnvironmentError missing_key_message), [])
      | Some key \<Rightarrow>
         (case genai_Client w key of
            Inl e \<Rightarrow> (Inl e, [NewClient key])
          | Inr cl \<Rightarrow>
             (let contents = [Content ''user'' [Part (prompt transcript)]];
                  trace = [NewClient key, GenerateContent cl model_name contents]
              in case generate_content w cl model_name contents of
                   Inl e \<Rightarrow> (Inl e, trace)
                 | Inr resp \<Rightarrow>
                    ((case index (candidates resp) 0 of
                        Inl e \<Rightarrow> Inl e
                      | Inr cand \<Rightarrow>
                         (case index (parts (content cand)) 0 of
                            Inl e \<Rightarrow> Inl e
                          | Inr p \<Rightarrow> Inr (part_text p))),
                     trace))))"

subsection \<open>get_summary\<close>

text \<open>The two error payloads and the result payload, as Python dicts.\<close>

definition invalid_url_payload :: "string \<rightharpoonup> string" where
  "invalid_url_payload = [''error'' \<mapsto> ''Invalid YouTube URL.'']"

definition no_transcript_payload :: "string \<rightharpoonup> string" where
  "no_transcript_payload =
     [''error'' \<mapsto> ''Transcript not found or not available for this video.'']"

definition summary_payload :: "string \<Rightarrow> string \<rightharpoonup> string" where
  "summary_payload summary = [''summary'' \<mapsto> summary]"

text \<open>\<open>except ValueError\<close> catches this class only.\<close>

fun is_ValueError :: "exn \<Rightarrow> bool" where
  "is_ValueError (ValueError m) = True"
| "is_ValueError e = False"

text \<open>
  \<^verbatim>\<open>
  try:
      video_id = extract_youtube_id(url)
  except ValueError:
      return {"error": "Invalid YouTube URL."}
  transcript = fetch_youtube_transcript(video_id)
  if transcript:
      summary = summarize_transcript_with_gemini(transcript)
      return {"summary": summary}
  else:
      return {"error": "Transcript not found or not available for this video."}
  \<close>
  The result is the payload the handler returns, or the exception that leaves it, with
  the calls made to the collaborators.
\<close>

definition get_summary ::
  "'a world \<Rightarrow> string \<Rightarrow> (exn + (string \<rightharpoonup> string)) \<times> event list" where
  "get_summary w url =
     (case extract_youtube_id url of
        Inl e \<Rightarrow> (if is_ValueError e then (Inr invalid_url_payload, []) else (Inl e, []))
      | Inr video_id \<Rightarrow>
         (let (transcript, tr1) = fetch_youtube_transcript w video_id
          in case (if truthy transcript then transcript else None) of
               None \<Rightarrow> (Inr no_transcript_payload, tr1)
             | Some t \<Rightarrow>
                (let (r, tr2) = summarize_transcript_with_gemini w t
                 in ((case r of Inl e \<Rightarrow> Inl e | Inr summary \<Rightarrow> Inr (summary_payload summary)),
                     tr1 @ tr2))))"

subsection \<open>The transcript text in the spec's words\<close>

text \<open>
  The spec calls the transcript text the caption fragments "concatenated into a single
  string, space-joined": the fragments in their order, one space in front of each but the
  first.
\<close>

fun space_joined :: "string list \<Rightarrow> string" where
  "space_joined [] = []"
| "space_joined (x # xs) = x @ concat (map (\<lambda>y. CHR '' '' # y) xs)"

subsection \<open>A sample world\<close>

text \<open>
  The collaborators of the end-to-end example of the spec: the video \<open>abc123\<close> has the
  two captions "Hello" and "world", any other video has none; the credential is set; the
  completion service answers every request with one candidate of one text part.
\<close>

definition sample_answer :: string where
  \<open>sample_answer = ''{"Topic name":"X","Topic summary":"Y"}''\<close>

definition sample_world :: "unit world" where
  "sample_world =
     \<lparr>ytt_fetch = (\<lambda>video_id.
        if video_id = ''abc123''
        then Inr [\<lparr>entry_text = ''Hello''\<rparr>, \<lparr>entry_text = ''world''\<rparr>]
        else Inl (OtherException ''TranscriptsDisabled'' video_id)),
      getenv = (\<lambda>name. if name = ''GEMINI_API_KEY'' then Some ''secret'' else None),
      genai_Client = (\<lambda>key. Inr (Client key)),
      generate_content = (\<lambda>cl m cs.
        Inr (Response [Candidate (Content ''model'' [Part sample_answer])]))\<rparr>"

section \<open>Properties of the string operations\<close>

text \<open>
  \<open>str_in\<close> is the contiguous-sublist relation of the library, and a split is undone
  by joining with the separator, as \<open>sep.join(s.split(sep)) == s\<close> in Python.
\<close>

lemma str_in_sublist: "str_in sub s = sublist sub s"
  by (induction s) (simp_all add: sublist_Cons_right)

lemma split_acc_Nil: "split_acc sep cur [] = [cur]"
  by (simp add: split_acc.simps)

lemma split_acc_Cons:
  "split_acc sep cur (x # xs) =
     (if sep \<noteq> [] \<and> prefix sep (x # xs) then cur # split_acc sep [] (drop (length sep) (x # xs))
      else split_acc sep (cur @ [x]) xs)"
  by (subst split_acc.simps) simp

lemma split_acc_not_Nil: "split_acc sep cur s \<noteq> []"
  by (induction sep cur s rule: split_acc.induct) (subst split_acc.simps, simp)

lemma hd_split_acc: "hd (split_acc sep cur s) = cur @ hd (split_acc sep [] s)"
proof (induction s arbitrary: cur)
  case Nil
  show ?case by (simp add: split_acc_Nil)
next
  case (Cons x xs)
  show ?case
  proof (cases "sep \<noteq> [] \<and> prefix sep (x # xs)")
    case True
    then show ?thesis by (simp add: split_acc_Cons)
  next
    case False
    have "hd (split_acc sep (cur @ [x]) xs) = (cur @ [x]) @ hd (split_acc sep [] xs)"
      by (rule Cons.IH)
    moreover have "hd (split_acc sep [x] xs) = [x] @ hd (split_acc sep [] xs)"
      using Cons.IH [of "[x]"] by simp
    ultimately show ?thesis using False by (simp add: split_acc_Cons)
  qed
qed

lemma join_Cons: "ys \<noteq> [] \<Longrightarrow> join sep (x # ys) = x @ sep @ join sep ys"
  by (cases ys) simp_all

lemma join_split_acc: "sep \<noteq> [] \<Longrightarrow> join sep (split_acc sep cur s) = cur @ s"
proof (induction sep cur s rule: split_acc.induct)
  case (1 sep cur s)
  show ?case
  proof (cases s)
    case Nil
    then show ?thesis by (simp add: split_acc_Nil)
  next
    case (Cons x xs)
    show ?thesis
    proof (cases "prefix sep s")
      case True
      then obtain r where r: "s = sep @ r" by (auto simp: prefix_def)
      then have d: "drop (length sep) s = r" by simp
      have "join sep (split_acc sep [] (drop (length sep) s)) = [] @ drop (length sep) s"
        using 1 Cons True by simp
      then have "join sep (split_acc sep [] r) = r" using d by simp
      moreover have "split_acc sep cur s = cur # split_acc sep [] r"
        using 1(3) Cons True d by (subst split_acc.simps) simp
      ultimately show ?thesis using r
        by (simp add: join_Cons split_acc_not_Nil)
    next
      case False
      then show ?thesis using 1 Cons by (simp add: split_acc_Cons)
    qed
  qed
qed

lemma str_in_length_split:
  "sep \<noteq> [] \<Longrightarrow> str_in sep s \<Longrightarrow> 2 \<le> length (split_acc sep cur s)"
proof (induction s arbitrary: cur)
  case Nil
  then show ?case by simp
next
  case (Cons x xs)
  show ?case
  proof (cases "prefix sep (x # xs)")
    case True
    have "1 \<le> length (split_acc sep [] (drop (length sep) (x # xs)))"
      using split_acc_not_Nil [of sep "[]" "drop (length sep) (x # xs)"]
      by (cases "split_acc sep [] (drop (length sep) (x # xs))") simp_all
    then show ?thesis using True Cons.prems by (simp add: split_acc_Cons)
  next
    case False
    then show ?thesis using Cons by (simp add: split_acc_Cons)
  qed
qed

lemma index_0: "xs \<noteq> [] \<Longrightarrow> index xs 0 = Inr (hd xs)"
  by (cases xs) (simp_all add: index_def)

lemma index_1: "2 \<le> length xs \<Longrightarrow> index xs 1 = Inr (xs ! 1)"
  by (simp add: index_def)

lemma index_last: "xs \<noteq> [] \<Longrightarrow> index xs (- 1) = Inr (last xs)"
  by (cases xs rule: rev_cases) (simp_all add: index_def Let_def nth_append)

lemma split_char_hd: "hd (split_acc [c] cur s) = cur @ takeWhile (\<lambda>x. x \<noteq> c) s"
  by (induction s arbitrary: cur) (simp_all add: split_acc_Nil split_acc_Cons)

lemma split_char_last:
  "last (split_acc [c] cur s) =
     (if c \<in> set s then rev (takeWhile (\<lambda>x. x \<noteq> c) (rev s)) else cur @ s)"
proof (induction s arbitrary: cur)
  case Nil
  show ?case by (simp add: split_acc_Nil)
next
  case (Cons x xs)
  show ?case
  proof (cases "x = c")
    case True
    then show ?thesis
      using Cons.IH [of "[]"] by (simp add: split_acc_Cons split_acc_not_Nil takeWhile_append)
  next
    case False
    then show ?thesis
      using Cons.IH [of "cur @ [x]"] by (auto simp add: split_acc_Cons takeWhile_append)
  qed
qed

lemma split_v_first:
  "\<not> str_in ''v='' p \<Longrightarrow>
   split_acc ''v='' cur (p @ ''v='' @ r) = (cur @ p) # split_acc ''v='' [] r"
proof (induction p arbitrary: cur)
  case Nil
  show ?case by (simp add: split_acc_Cons)
next
  case (Cons x p)
  from Cons.prems have np: "\<not> prefix ''v='' (x # p)" and ns: "\<not> str_in ''v='' p"
    by simp_all
  have "\<not> prefix ''v='' (x # p @ ''v='' @ r)"
    using np by (cases p) auto
  then show ?case using Cons.IH [OF ns, of "cur @ [x]"]
    by (simp add: split_acc_Cons)
qed

lemma split_v_hd_amp:
  "\<not> str_in ''v='' a \<Longrightarrow>
   hd (split_acc ''v='' cur (a @ CHR ''&'' # b)) = cur @ a @ hd (split_acc ''v='' ''&'' b)"
proof (induction a arbitrary: cur)
  case Nil
  show ?case using hd_split_acc [of "''v=''" "cur @ ''&''" b] hd_split_acc [of "''v=''" "''&''" b]
    by (simp add: split_acc_Cons)
next
  case (Cons x a)
  from Cons.prems have np: "\<not> prefix ''v='' (x # a)" and ns: "\<not> str_in ''v='' a"
    by simp_all
  have "\<not> prefix ''v='' (x # a @ CHR ''&'' # b)"
    using np by (cases a) auto
  then show ?case using Cons.IH [OF ns, of "cur @ [x]"]
    by (simp add: split_acc_Cons)
qed

lemma split_v_none: "\<not> str_in ''v='' s \<Longrightarrow> split_acc ''v='' cur s = [cur @ s]"
  by (induction s arbitrary: cur) (simp_all add: split_acc_Nil split_acc_Cons)


section \<open>extract_youtube_id: the watch branch\<close>

lemma watch_marker_str_in: "str_in ''youtube.com/watch?v='' (P @ ''youtube.com/watch?v='' @ rest)"
  unfolding str_in_sublist by (rule sublist_appendI)

lemma no_v_before_marker:
  "\<not> str_in ''v='' P \<Longrightarrow> \<not> str_in ''v='' (P @ ''youtube.com/watch?'')"
proof (induction P)
  case Nil
  show ?case by simp
next
  case (Cons x P)
  from Cons.prems have np: "\<not> prefix ''v='' (x # P)" and ns: "\<not> str_in ''v='' P"
    by simp_all
  have "\<not> prefix ''v='' (x # P @ ''youtube.com/watch?'')"
    using np by (cases P) auto
  then show ?case using Cons.IH [OF ns] by simp
qed

lemma takeWhile_first_piece:
  assumes "\<not> str_in ''v='' (takeWhile (\<lambda>c. c \<noteq> CHR ''&'') s)"
  shows "takeWhile (\<lambda>c. c \<noteq> CHR ''&'') (hd (split_acc ''v='' [] s)) =
         takeWhile (\<lambda>c. c \<noteq> CHR ''&'') s"
proof (cases "dropWhile (\<lambda>c. c \<noteq> CHR ''&'') s")
  case Nil
  then have tw: "takeWhile (\<lambda>c. c \<noteq> CHR ''&'') s = s"
    by (metis append_Nil2 takeWhile_dropWhile_id)
  have "\<not> str_in ''v='' s" using assms unfolding tw .
  then show ?thesis by (simp add: split_v_none)
next
  case (Cons c b)
  have c: "c = CHR ''&''"
    using hd_dropWhile [of "\<lambda>c. c \<noteq> CHR ''&''" s] Cons by simp
  define a where "a = takeWhile (\<lambda>c. c \<noteq> CHR ''&'') s"
  have s: "s = a @ CHR ''&'' # b"
    using takeWhile_dropWhile_id [of "\<lambda>c. c \<noteq> CHR ''&''" s] Cons c a_def by simp
  have a: "\<forall>x\<in>set a. x \<noteq> CHR ''&''"
    unfolding a_def by (auto dest: set_takeWhileD)
  have na: "\<not> str_in ''v='' a"
    unfolding a_def by (rule assms)
  have "hd (split_acc ''v='' [] s) = a @ hd (split_acc ''v='' ''&'' b)"
    using split_v_hd_amp [OF na, of "[]" b] by (simp add: s)
  also have "hd (split_acc ''v='' ''&'' b) = ''&'' @ hd (split_acc ''v='' [] b)"
    by (rule hd_split_acc)
  finally have "takeWhile (\<lambda>c. c \<noteq> CHR ''&'') (hd (split_acc ''v='' [] s)) = a"
    using a by (simp add: takeWhile_append2)
  then show ?thesis by (simp add: a_def)
qed

text \<open>
  The watch branch on a URL whose first \<open>v=\<close> is the marker's and whose identifier is
  not cut short by a further \<open>v=\<close>.
\<close>

lemma extract_watch_branch:
  assumes P: "\<not> str_in ''v='' P"
    and rest: "\<not> str_in ''v='' (takeWhile (\<lambda>c. c \<noteq> CHR ''&'') rest)"
  shows "extract_youtube_id (P @ ''youtube.com/watch?v='' @ rest) =
         Inr (takeWhile (\<lambda>c. c \<noteq> CHR ''&'') rest)"
proof -
  let ?url = "P @ ''youtube.com/watch?v='' @ rest"
  let ?piece = "hd (split_acc ''v='' [] rest)"
  have url: "?url = (P @ ''youtube.com/watch?'') @ ''v='' @ rest" by simp
  have "split_acc ''v='' [] ?url = (P @ ''youtube.com/watch?'') # split_acc ''v='' [] rest"
    unfolding url using split_v_first [OF no_v_before_marker [OF P], of "[]" rest] by simp
  then have ps: "split ?url ''v='' = Inr ((P @ ''youtube.com/watch?'') # split_acc ''v='' [] rest)"
    by (simp add: split_def)
  have p: "index ((P @ ''youtube.com/watch?'') # split_acc ''v='' [] rest) 1 = Inr ?piece"
    using split_acc_not_Nil [of "''v=''" "[]" rest]
    by (cases "split_acc ''v='' [] rest") (simp_all add: index_def)
  have qs: "split ?piece ''&'' = Inr (split_acc ''&'' [] ?piece)"
    by (simp add: split_def)
  have q: "index (split_acc ''&'' [] ?piece) 0 = Inr (takeWhile (\<lambda>c. c \<noteq> CHR ''&'') ?piece)"
    by (simp add: index_0 split_acc_not_Nil split_char_hd)
  have "extract_youtube_id ?url = Inr (takeWhile (\<lambda>c. c \<noteq> CHR ''&'') ?piece)"
    unfolding extract_youtube_id_def
    by (simp only: watch_marker_str_in if_True ps p qs q sum.case)
  then show ?thesis by (simp only: takeWhile_first_piece [OF rest])
qed

text \<open>
  Without the marker \<open>youtube.com/watch?v=\<close> the watch branch is not taken, whatever
  else the URL contains: the URL goes to the youtu.be branch or is refused.
\<close>

lemma last_split_slash:
  "last (split_acc ''/'' [] s) = rev (takeWhile (\<lambda>c. c \<noteq> CHR ''/'') (rev s))"
proof (cases "CHR ''/'' \<in> set s")
  case True
  then show ?thesis by (simp add: split_char_last)
next
  case False
  then have "takeWhile (\<lambda>c. c \<noteq> CHR ''/'') (rev s) = rev s"
    by (auto simp: takeWhile_eq_all_conv)
  then have "rev (takeWhile (\<lambda>c. c \<noteq> CHR ''/'') (rev s)) = s"
    by (simp only: rev_rev_ident)
  moreover have "last (split_acc ''/'' [] s) = s"
    using False by (simp add: split_char_last)
  ultimately show ?thesis by (simp only:)
qed

lemma extract_youtu_be_branch:
  assumes "\<not> str_in ''youtube.com/watch?v='' url" and "str_in ''youtu.be/'' url"
  shows "extract_youtube_id url =
         Inr (rev (takeWhile (\<lambda>c. c \<noteq> CHR ''/'') (rev (rstrip url ''/''))))"
  using assms
  by (simp add: extract_youtube_id_def split_def index_last split_acc_not_Nil last_split_slash)

lemma extract_refusal:
  assumes "\<not> str_in ''youtube.com/watch?v='' url" and "\<not> str_in ''youtu.be/'' url"
  shows "extract_youtube_id url = Inl (ValueError ''Invalid YouTube URL'')"
  using assms by (simp add: extract_youtube_id_def)

text \<open>
  C1, as amended. The marker the code tests is \<open>youtube.com/watch?v=\<close>, the host
  included. For every URL \<open>P @ ''youtube.com/watch?v='' @ rest\<close> in which \<open>v=\<close> occurs
  neither in \<open>P\<close> nor in \<open>rest\<close> before its first \<open>&\<close>, the parser returns \<open>rest\<close> up to
  the first \<open>&\<close>, or all of \<open>rest\<close> when it has no \<open>&\<close>. And every URL without that
  marker, also one that contains \<open>watch?v=\<close>, is handled by the youtu.be branch (the
  text behind the last \<open>/\<close>, trailing slashes removed) when it contains \<open>youtu.be/\<close>, and
  is refused with \<open>ValueError\<close> otherwise.
\<close>

theorem extract_watch_url:
  "(\<forall>P rest.
      \<not> str_in ''v='' P \<and> \<not> str_in ''v='' (takeWhile (\<lambda>c. c \<noteq> CHR ''&'') rest) \<longrightarrow>
      extract_youtube_id (P @ ''youtube.com/watch?v='' @ rest) =
        Inr (takeWhile (\<lambda>c. c \<noteq> CHR ''&'') rest)) \<and>
   (\<forall>url.
      \<not> str_in ''youtube.com/watch?v='' url \<longrightarrow>
      extract_youtube_id url =
        (if str_in ''youtu.be/'' url
         then Inr (rev (takeWhile (\<lambda>c. c \<noteq> CHR ''/'') (rev (rstrip url ''/''))))
         else Inl (ValueError ''Invalid YouTube URL'')))"
proof (intro conjI allI impI)
  fix P rest
  assume "\<not> str_in ''v='' P \<and> \<not> str_in ''v='' (takeWhile (\<lambda>c. c \<noteq> CHR ''&'') rest)"
  then have P: "\<not> str_in ''v='' P"
    and rest: "\<not> str_in ''v='' (takeWhile (\<lambda>c. c \<noteq> CHR ''&'') rest)"
    by blast+
  show "extract_youtube_id (P @ ''youtube.com/watch?v='' @ rest) =
        Inr (takeWhile (\<lambda>c. c \<noteq> CHR ''&'') rest)"
    by (rule extract_watch_branch [OF P rest])
next
  fix url
  assume nm: "\<not> str_in ''youtube.com/watch?v='' url"
  show "extract_youtube_id url =
        (if str_in ''youtu.be/'' url
         then Inr (rev (takeWhile (\<lambda>c. c \<noteq> CHR ''/'') (rev (rstrip url ''/''))))
         else Inl (ValueError ''Invalid YouTube URL''))"
  proof (cases "str_in ''youtu.be/'' url")
    case True
    then show ?thesis using extract_youtu_be_branch [OF nm True] by simp
  next
    case False
    then show ?thesis using extract_refusal [OF nm False] by simp
  qed
qed

theorem extract_watch_url_witness:
  "\<not> str_in ''v='' ''https://www.'' \<and>
   \<not> str_in ''v='' (takeWhile (\<lambda>c. c \<noteq> CHR ''&'') ''abc123&t=5'') \<and>
   extract_youtube_id ''https://www.youtube.com/watch?v=abc123&t=5'' = Inr ''abc123'' \<and>
   str_in ''watch?v='' ''https://youtu.be/watch?v=abc123'' \<and>
   \<not> str_in ''youtube.com/watch?v='' ''https://youtu.be/watch?v=abc123'' \<and>
   extract_youtube_id ''https://youtu.be/watch?v=abc123'' = Inr ''watch?v=abc123'' \<and>
   str_in ''watch?v='' ''https://vimeo.com/watch?v=abc123'' \<and>
   \<not> str_in ''youtube.com/watch?v='' ''https://vimeo.com/watch?v=abc123'' \<and>
   extract_youtube_id ''https://vimeo.com/watch?v=abc123'' =
     Inl (ValueError ''Invalid YouTube URL'')"
proof -
  have p: "\<not> str_in ''v='' ''https://www.''" by simp
  have r: "\<not> str_in ''v='' (takeWhile (\<lambda>c. c \<noteq> CHR ''&'') ''abc123&t=5'')" by simp
  have a: "extract_youtube_id (''https://www.'' @ ''youtube.com/watch?v='' @ ''abc123&t=5'') =
           Inr (takeWhile (\<lambda>c. c \<noteq> CHR ''&'') ''abc123&t=5'')"
    using p r conjunct1 [OF extract_watch_url] by blast
  have y: "\<not> str_in ''youtube.com/watch?v='' ''https://youtu.be/watch?v=abc123''" by simp
  have b: "extract_youtube_id ''https://youtu.be/watch?v=abc123'' =
           (if str_in ''youtu.be/'' ''https://youtu.be/watch?v=abc123''
            then Inr (rev (takeWhile (\<lambda>c. c \<noteq> CHR ''/'')
                        (rev (rstrip ''https://youtu.be/watch?v=abc123'' ''/''))))
            else Inl (ValueError ''Invalid YouTube URL''))"
    using y conjunct2 [OF extract_watch_url] by blast
  have v: "\<not> str_in ''youtube.com/watch?v='' ''https://vimeo.com/watch?v=abc123''" by simp
  have c: "extract_youtube_id ''https://vimeo.com/watch?v=abc123'' =
           (if str_in ''youtu.be/'' ''https://vimeo.com/watch?v=abc123''
            then Inr (rev (takeWhile (\<lambda>c. c \<noteq> CHR ''/'')
                        (rev (rstrip ''https://vimeo.com/watch?v=abc123'' ''/''))))
            else Inl (ValueError ''Invalid YouTube URL''))"
    using v conjunct2 [OF extract_watch_url] by blast
  have a': "extract_youtube_id ''https://www.youtube.com/watch?v=abc123&t=5'' = Inr ''abc123''"
    using a by simp
  have b': "extract_youtube_id ''https://youtu.be/watch?v=abc123'' = Inr ''watch?v=abc123''"
    using b by (simp add: rstrip_def)
  have c': "extract_youtube_id ''https://vimeo.com/watch?v=abc123'' =
            Inl (ValueError ''Invalid YouTube URL'')"
    using c by simp
  show ?thesis using p r y v a' b' c' by simp
qed

text \<open>
  C1 as stated speaks of every URL that contains \<open>watch?v=\<close>. A URL of another host
  contains it and is refused.
\<close>

theorem extract_other_host_counterexample:
  "str_in ''watch?v='' ''https://example.com/watch?v=abc123'' \<and>
   extract_youtube_id ''https://example.com/watch?v=abc123'' = Inl (ValueError ''Invalid YouTube URL'')"
  by (simp add: extract_youtube_id_def)

text \<open>
  \<open>url.split("v=")[1]\<close> is the text between the first and the second \<open>v=\<close> of the
  whole URL, so an earlier \<open>v=\<close> takes the place of the marker's.
\<close>

lemma extract_second_v:
  "extract_youtube_id ''https://e.com/?v=1&u=youtube.com/watch?v=abc'' = Inr ''1''"
  by code_simp

section \<open>extract_youtube_id: the youtu.be branch and the refusal\<close>

lemma not_watch_marker:
  assumes "\<not> str_in ''watch?v='' url"
  shows "\<not> str_in ''youtube.com/watch?v='' url"
proof
  assume "str_in ''youtube.com/watch?v='' url"
  then obtain ps ss where "url = ps @ ''youtube.com/watch?v='' @ ss"
    unfolding str_in_sublist sublist_def by blast
  then have "url = (ps @ ''youtube.com/'') @ ''watch?v='' @ ss" by simp
  then have "str_in ''watch?v='' url"
    unfolding str_in_sublist sublist_def by blast
  with assms show False by simp
qed

lemma dropWhile_replicate_append:
  "P c \<Longrightarrow> dropWhile P (replicate n c @ ys) = dropWhile P ys"
  by (induction n) simp_all

lemma rstrip_slashes:
  assumes "ID \<noteq> []" and "CHR ''/'' \<notin> set ID"
  shows "rstrip (P @ ID @ replicate n (CHR ''/'')) ''/'' = P @ ID"
proof -
  have "last ID \<noteq> CHR ''/''" using assms by (metis last_in_set)
  then have "dropWhile (\<lambda>c. c \<in> set ''/'') (rev ID @ rev P) = rev ID @ rev P"
    using assms(1) by (cases ID rule: rev_cases) simp_all
  then show ?thesis
    by (simp add: rstrip_def dropWhile_replicate_append)
qed

text \<open>
  The two index expressions of the parser are always in range, so the only exception that
  leaves it is the \<open>ValueError\<close> of its last branch.
\<close>

lemma watch_marker_has_v:
  assumes "str_in ''youtube.com/watch?v='' url"
  shows "str_in ''v='' url"
proof -
  from assms obtain ps ss where "url = ps @ ''youtube.com/watch?v='' @ ss"
    unfolding str_in_sublist sublist_def by blast
  then have "url = (ps @ ''youtube.com/watch?'') @ ''v='' @ ss" by simp
  then show ?thesis unfolding str_in_sublist sublist_def by blast
qed

lemma extract_raises_ValueError_only:
  assumes "extract_youtube_id url = Inl e"
  shows "e = ValueError ''Invalid YouTube URL''"
proof (cases "str_in ''youtube.com/watch?v='' url")
  case True
  have len: "2 \<le> length (split_acc ''v='' [] url)"
    using watch_marker_has_v [OF True] by (simp add: str_in_length_split)
  have "extract_youtube_id url =
        index (split_acc ''&'' [] (split_acc ''v='' [] url ! 1)) 0"
    using True by (simp add: extract_youtube_id_def split_def index_1 [OF len])
  also have "\<dots> = Inr (hd (split_acc ''&'' [] (split_acc ''v='' [] url ! 1)))"
    by (rule index_0) (rule split_acc_not_Nil)
  finally show ?thesis using assms by simp
next
  case False
  show ?thesis
  proof (cases "str_in ''youtu.be/'' url")
    case True
    have "extract_youtube_id url = index (split_acc ''/'' [] (rstrip url ''/'')) (- 1)"
      using False True by (simp add: extract_youtube_id_def split_def)
    also have "\<dots> = Inr (last (split_acc ''/'' [] (rstrip url ''/'')))"
      by (rule index_last) (rule split_acc_not_Nil)
    finally show ?thesis using assms by simp
  next
    case no: False
    then show ?thesis using False assms by (simp add: extract_youtube_id_def)
  qed
qed

text \<open>
  C2, as amended. A URL that does not contain \<open>watch?v=\<close> but contains \<open>youtu.be/\<close>
  yields the text behind the last \<open>/\<close> of the URL without its trailing slashes; the
  branch strips nothing else. So \<open>P @ ''youtu.be/'' @ ID\<close>, with or without trailing
  slashes, yields \<open>ID\<close> when \<open>ID\<close> is not empty and holds no \<open>/\<close>.
\<close>

theorem extract_youtu_be:
  assumes nw: "\<not> str_in ''watch?v='' url" and yb: "str_in ''youtu.be/'' url"
  shows "extract_youtube_id url =
           Inr (rev (takeWhile (\<lambda>c. c \<noteq> CHR ''/'') (rev (rstrip url ''/'')))) \<and>
         (\<forall>P ID n. url = P @ ''youtu.be/'' @ ID @ replicate n (CHR ''/'') \<and> ID \<noteq> [] \<and>
                    CHR ''/'' \<notin> set ID \<longrightarrow>
            extract_youtube_id url = Inr ID)"
proof (intro conjI allI impI)
  show seg: "extract_youtube_id url =
        Inr (rev (takeWhile (\<lambda>c. c \<noteq> CHR ''/'') (rev (rstrip url ''/''))))"
    by (rule extract_youtu_be_branch [OF not_watch_marker [OF nw] yb])
  fix P ID n
  assume h: "url = P @ ''youtu.be/'' @ ID @ replicate n (CHR ''/'') \<and> ID \<noteq> [] \<and>
             CHR ''/'' \<notin> set ID"
  then have ne: "ID \<noteq> []" and ns: "CHR ''/'' \<notin> set ID" by simp_all
  have "rstrip url ''/'' = (P @ ''youtu.be/'') @ ID"
    using rstrip_slashes [OF ne ns, where P = "P @ ''youtu.be/''" and n = n] h by simp
  moreover have "takeWhile (\<lambda>c. c \<noteq> CHR ''/'') (rev ID @ ''/eb.utuoy'' @ rev P) = rev ID"
    using h by (simp add: takeWhile_append)
  ultimately show "extract_youtube_id url = Inr ID"
    using seg by simp
qed

theorem extract_youtu_be_witness:
  "\<not> str_in ''watch?v='' ''https://youtu.be/abc123/'' \<and>
   str_in ''youtu.be/'' ''https://youtu.be/abc123/'' \<and>
   extract_youtube_id ''https://youtu.be/abc123/'' = Inr ''abc123''"
proof -
  have nw: "\<not> str_in ''watch?v='' ''https://youtu.be/abc123/''" by simp
  have yb: "str_in ''youtu.be/'' ''https://youtu.be/abc123/''" by simp
  have "''https://youtu.be/abc123/'' =
          ''https://'' @ ''youtu.be/'' @ ''abc123'' @ replicate (Suc 0) (CHR ''/'') \<and>
        ''abc123'' \<noteq> [] \<and> CHR ''/'' \<notin> set ''abc123'' \<longrightarrow>
        extract_youtube_id ''https://youtu.be/abc123/'' = Inr ''abc123''"
    using conjunct2 [OF extract_youtu_be [OF nw yb]] by blast
  then show ?thesis using nw yb by simp
qed

text \<open>
  C2 as stated has a trailing \<open>&...\<close> stripped in this branch too. The branch keeps it.
\<close>

theorem youtu_be_ampersand_counterexample:
  "\<not> str_in ''watch?v='' ''https://youtu.be/abc123&t=5'' \<and>
   str_in ''youtu.be/'' ''https://youtu.be/abc123&t=5'' \<and>
   extract_youtube_id ''https://youtu.be/abc123&t=5'' = Inr ''abc123&t=5''"
  by code_simp

text \<open>
  C3. A URL that contains neither \<open>watch?v=\<close> nor \<open>youtu.be/\<close> makes the parser raise
  \<open>ValueError\<close>; the handler answers \<open>{"error": "Invalid YouTube URL."}\<close> and calls
  neither the transcript library nor the completion service.
\<close>

theorem invalid_url_rejected:
  assumes "\<not> str_in ''watch?v='' url" and "\<not> str_in ''youtu.be/'' url"
  shows "extract_youtube_id url = Inl (ValueError ''Invalid YouTube URL'') \<and>
         get_summary w url = (Inr [''error'' \<mapsto> ''Invalid YouTube URL.''], [])"
  using not_watch_marker [OF assms(1)] assms(2)
  by (simp add: get_summary_def extract_youtube_id_def invalid_url_payload_def)

theorem invalid_url_rejected_witness:
  "\<not> str_in ''watch?v='' ''not-a-youtube-url'' \<and>
   \<not> str_in ''youtu.be/'' ''not-a-youtube-url'' \<and>
   extract_youtube_id ''not-a-youtube-url'' = Inl (ValueError ''Invalid YouTube URL'') \<and>
   get_summary sample_world ''not-a-youtube-url'' =
     (Inr [''error'' \<mapsto> ''Invalid YouTube URL.''], [])"
proof -
  have nw: "\<not> str_in ''watch?v='' ''not-a-youtube-url''" by simp
  have ny: "\<not> str_in ''youtu.be/'' ''not-a-youtube-url''" by simp
  show ?thesis using nw ny invalid_url_rejected [OF nw ny, of sample_world] by simp
qed

section \<open>fetch_youtube_transcript\<close>

text \<open>\<open>all_text.strip()\<close> is false exactly when every character is whitespace.\<close>

lemma strip_Nil_iff: "strip s = [] \<longleftrightarrow> (\<forall>c\<in>set s. isspace c)"
proof -
  have "strip s = [] \<longleftrightarrow> (\<forall>c\<in>set (dropWhile isspace s). isspace c)"
    by (simp add: strip_def dropWhile_eq_Nil_conv)
  also have "\<dots> \<longleftrightarrow> dropWhile isspace s = []"
  proof
    assume a: "\<forall>c\<in>set (dropWhile isspace s). isspace c"
    show "dropWhile isspace s = []"
    proof (rule ccontr)
      assume n: "dropWhile isspace s \<noteq> []"
      then have "\<not> isspace (hd (dropWhile isspace s))" by (rule hd_dropWhile)
      moreover have "hd (dropWhile isspace s) \<in> set (dropWhile isspace s)"
        using n by simp
      ultimately show False using a by blast
    qed
  next
    assume e: "dropWhile isspace s = []"
    show "\<forall>c\<in>set (dropWhile isspace s). isspace c" unfolding e by simp
  qed
  also have "\<dots> \<longleftrightarrow> (\<forall>c\<in>set s. isspace c)"
    by (simp add: dropWhile_eq_Nil_conv)
  finally show ?thesis .
qed

lemma fetch_trace: "snd (fetch_youtube_transcript w vid) = [FetchTranscript vid]"
  by (simp add: fetch_youtube_transcript_def)

lemma fetch_Inl: "ytt_fetch w vid = Inl e \<Longrightarrow> fst (fetch_youtube_transcript w vid) = None"
  by (simp add: fetch_youtube_transcript_def)

lemma fetch_Inr:
  "ytt_fetch w vid = Inr es \<Longrightarrow>
   fst (fetch_youtube_transcript w vid) =
     (if \<forall>c\<in>set (join '' '' (map entry_text es)). isspace c then None
      else Some (join '' '' (map entry_text es)))"
  by (simp add: fetch_youtube_transcript_def Let_def strip_Nil_iff)

lemma fetch_Some_not_blank:
  assumes "fst (fetch_youtube_transcript w vid) = Some s"
  shows "\<exists>c\<in>set s. \<not> isspace c"
proof (cases "ytt_fetch w vid")
  case (Inl e)
  then show ?thesis using assms by (simp add: fetch_Inl)
next
  case (Inr es)
  then show ?thesis using assms by (auto simp: fetch_Inr split: if_splits)
qed

lemma fetch_Some_truthy:
  "fst (fetch_youtube_transcript w vid) = Some s \<Longrightarrow> s \<noteq> []"
  using fetch_Some_not_blank by fastforce

text \<open>
  C5. When the transcript library raises, whatever the exception, or returns no entry, or
  returns entries whose texts joined by spaces are empty or all whitespace, the fetcher
  returns \<open>None\<close>; no exception leaves it, and the cause is not told apart.
\<close>

theorem fetch_failures_collapse:
  assumes "(\<exists>e. ytt_fetch w vid = Inl e) \<or>
           ytt_fetch w vid = Inr [] \<or>
           (\<exists>es. ytt_fetch w vid = Inr es \<and>
                 (\<forall>c\<in>set (join '' '' (map entry_text es)). isspace c))"
  shows "fetch_youtube_transcript w vid = (None, [FetchTranscript vid])"
proof -
  have "fst (fetch_youtube_transcript w vid) = None"
    using assms by (auto simp: fetch_Inl fetch_Inr)
  then show ?thesis using fetch_trace [of w vid]
    by (cases "fetch_youtube_transcript w vid") simp
qed

theorem fetch_failures_collapse_witness:
  "fetch_youtube_transcript sample_world ''zzz'' = (None, [FetchTranscript ''zzz'']) \<and>
   fetch_youtube_transcript (sample_world\<lparr>ytt_fetch := \<lambda>v. Inr []\<rparr>) ''abc123'' =
     (None, [FetchTranscript ''abc123'']) \<and>
   fetch_youtube_transcript
     (sample_world\<lparr>ytt_fetch := \<lambda>v. Inr [\<lparr>entry_text = '' ''\<rparr>, \<lparr>entry_text = []\<rparr>]\<rparr>) ''abc123'' =
     (None, [FetchTranscript ''abc123''])"
  using fetch_failures_collapse [of sample_world "''zzz''"]
    fetch_failures_collapse [of "sample_world\<lparr>ytt_fetch := \<lambda>v. Inr []\<rparr>" "''abc123''"]
    fetch_failures_collapse
      [of "sample_world\<lparr>ytt_fetch := \<lambda>v. Inr [\<lparr>entry_text = '' ''\<rparr>, \<lparr>entry_text = []\<rparr>]\<rparr>" "''abc123''"]
  by (simp add: sample_world_def isspace_def)

section \<open>summarize_transcript_with_gemini\<close>

text \<open>
  C6. Without the credential (\<open>GEMINI_API_KEY\<close> unset, or set to the empty string, which
  \<open>not api_key\<close> treats alike) the summarizer raises \<open>EnvironmentError\<close> whatever the
  transcript, and has neither built a client nor called the completion service.
\<close>

theorem missing_credential:
  assumes "getenv w ''GEMINI_API_KEY'' = None \<or> getenv w ''GEMINI_API_KEY'' = Some []"
  shows "summarize_transcript_with_gemini w transcript =
         (Inl (EnvironmentError missing_key_message), [])"
  using assms by (auto simp: summarize_transcript_with_gemini_def)

theorem missing_credential_witness:
  "summarize_transcript_with_gemini (sample_world\<lparr>getenv := \<lambda>name. None\<rparr>) ''Hello world'' =
     (Inl (EnvironmentError missing_key_message), [])"
  using missing_credential [of "sample_world\<lparr>getenv := \<lambda>name. None\<rparr>" "''Hello world''"]
  by simp


section \<open>The transcript text\<close>

lemma join_space_joined: "join '' '' xs = space_joined xs"
  by (induction "'' ''" xs rule: join.induct) simp_all

text \<open>
  C7. For every list of entries the transcript library returns, the text the fetcher
  builds is the entries' texts in order with one space between neighbours; the fetcher
  returns it (C5 has the case where it is all whitespace and \<open>None\<close> is returned).
  Entries with the texts "a" and "b" give "a b".
\<close>

theorem fetch_space_joins:
  assumes "ytt_fetch w vid = Inr es"
  shows "fst (fetch_youtube_transcript w vid) =
           (if \<forall>c\<in>set (space_joined (map entry_text es)). isspace c then None
            else Some (space_joined (map entry_text es))) \<and>
         (map entry_text es = [''a'', ''b''] \<longrightarrow>
            fst (fetch_youtube_transcript w vid) = Some ''a b'')"
proof
  show g: "fst (fetch_youtube_transcript w vid) =
           (if \<forall>c\<in>set (space_joined (map entry_text es)). isspace c then None
            else Some (space_joined (map entry_text es)))"
    using fetch_Inr [OF assms] by (simp only: join_space_joined)
  show "map entry_text es = [''a'', ''b''] \<longrightarrow>
        fst (fetch_youtube_transcript w vid) = Some ''a b''"
    using g by (simp add: isspace_def)
qed

theorem fetch_space_joins_witness:
  "fst (fetch_youtube_transcript
          (sample_world\<lparr>ytt_fetch := \<lambda>v. Inr [\<lparr>entry_text = ''a''\<rparr>, \<lparr>entry_text = ''b''\<rparr>]\<rparr>)
          ''abc123'') = Some ''a b''"
  using fetch_space_joins
    [of "sample_world\<lparr>ytt_fetch := \<lambda>v. Inr [\<lparr>entry_text = ''a''\<rparr>, \<lparr>entry_text = ''b''\<rparr>]\<rparr>"
        "''abc123''" "[\<lparr>entry_text = ''a''\<rparr>, \<lparr>entry_text = ''b''\<rparr>]"]
  by (simp add: isspace_def)

section \<open>get_summary\<close>

text \<open>The handler along its three ways out of the parser and the fetcher.\<close>

lemma fetch_pair:
  "fst (fetch_youtube_transcript w vid) = r \<Longrightarrow>
   fetch_youtube_transcript w vid = (r, [FetchTranscript vid])"
  using fetch_trace [of w vid] by (cases "fetch_youtube_transcript w vid") simp

lemma get_summary_Some:
  assumes "extract_youtube_id url = Inr vid"
    and "fst (fetch_youtube_transcript w vid) = Some t"
  shows "get_summary w url =
           ((case fst (summarize_transcript_with_gemini w t) of
               Inl e \<Rightarrow> Inl e
             | Inr summary \<Rightarrow> Inr (summary_payload summary)),
            FetchTranscript vid # snd (summarize_transcript_with_gemini w t))"
  using assms(1) fetch_pair [OF assms(2)] fetch_Some_truthy [OF assms(2)]
  by (simp add: get_summary_def split: prod.splits)

lemma get_summary_None:
  assumes "extract_youtube_id url = Inr vid"
    and "fst (fetch_youtube_transcript w vid) = None"
  shows "get_summary w url = (Inr no_transcript_payload, [FetchTranscript vid])"
  using assms(1) fetch_pair [OF assms(2)]
  by (simp add: get_summary_def)

lemma get_summary_Inl:
  "extract_youtube_id url = Inl e \<Longrightarrow>
   get_summary w url = (if is_ValueError e then (Inr invalid_url_payload, []) else (Inl e, []))"
  by (simp add: get_summary_def)

lemma get_summary_parse_failure:
  "extract_youtube_id url = Inl e \<Longrightarrow> get_summary w url = (Inr invalid_url_payload, [])"
  using extract_raises_ValueError_only [of url e] by (simp add: get_summary_Inl)

lemma extract_short_link: "extract_youtube_id ''https://youtu.be/abc123'' = Inr ''abc123''"
  by code_simp

lemma summarize_answer:
  assumes "getenv w ''GEMINI_API_KEY'' = Some key" and "key \<noteq> []"
    and "genai_Client w key = Inr cl"
    and "generate_content w cl ''gemini-2.5-pro'' [Content ''user'' [Part (prompt t)]] = Inr resp"
    and "candidates resp = Candidate (Content r (Part answer # ps)) # cs"
  shows "summarize_transcript_with_gemini w t =
           (Inr answer,
            [NewClient key,
             GenerateContent cl ''gemini-2.5-pro'' [Content ''user'' [Part (prompt t)]]])"
  using assms
  by (simp add: summarize_transcript_with_gemini_def model_name_def index_def Let_def)

text \<open>
  C4. The end-to-end example: for \<open>https://youtu.be/abc123\<close>, with the captions "Hello"
  and "world", the credential set and the completion service answering the prompt built
  from "Hello world" with a response whose first candidate's first part holds \<open>answer\<close>,
  the handler returns \<open>{"summary": answer}\<close>, the text unchanged. The witness takes the
  answer of the spec's example.
\<close>

theorem end_to_end_success:
  assumes "ytt_fetch w ''abc123'' = Inr es"
    and "map entry_text es = [''Hello'', ''world'']"
    and "getenv w ''GEMINI_API_KEY'' = Some key" and "key \<noteq> []"
    and "genai_Client w key = Inr cl"
    and "generate_content w cl ''gemini-2.5-pro''
           [Content ''user'' [Part (prompt ''Hello world'')]] = Inr resp"
    and "candidates resp = Candidate (Content r (Part answer # ps)) # cs"
  shows "get_summary w ''https://youtu.be/abc123'' =
           (Inr [''summary'' \<mapsto> answer],
            [FetchTranscript ''abc123'', NewClient key,
             GenerateContent cl ''gemini-2.5-pro''
               [Content ''user'' [Part (prompt ''Hello world'')]]])"
proof -
  have "fst (fetch_youtube_transcript w ''abc123'') = Some ''Hello world''"
    using fetch_Inr [OF assms(1)] assms(2) by (simp add: isspace_def)
  from get_summary_Some [OF extract_short_link this] summarize_answer [OF assms(3-7)]
  show ?thesis by (simp add: summary_payload_def)
qed

theorem end_to_end_success_witness:
  \<open>getenv sample_world ''GEMINI_API_KEY'' = Some ''secret'' \<and>
   get_summary sample_world ''https://youtu.be/abc123'' =
     (Inr [''summary'' \<mapsto> ''{"Topic name":"X","Topic summary":"Y"}''],
      [FetchTranscript ''abc123'', NewClient ''secret'',
       GenerateContent (Client ''secret'') ''gemini-2.5-pro''
         [Content ''user'' [Part (prompt ''Hello world'')]]])\<close>
proof -
  have a1: "ytt_fetch sample_world ''abc123'' =
            Inr [\<lparr>entry_text = ''Hello''\<rparr>, \<lparr>entry_text = ''world''\<rparr>]"
    by (simp add: sample_world_def)
  have a2: "map entry_text [\<lparr>entry_text = ''Hello''\<rparr>, \<lparr>entry_text = ''world''\<rparr>] =
            [''Hello'', ''world'']"
    by simp
  have a3: "getenv sample_world ''GEMINI_API_KEY'' = Some ''secret''"
    by (simp add: sample_world_def)
  have a4: "''secret'' \<noteq> []" by simp
  have a5: "genai_Client sample_world ''secret'' = Inr (Client ''secret'')"
    by (simp add: sample_world_def)
  have a6: "generate_content sample_world (Client ''secret'') ''gemini-2.5-pro''
              [Content ''user'' [Part (prompt ''Hello world'')]] =
            Inr (Response [Candidate (Content ''model'' [Part sample_answer])])"
    by (simp add: sample_world_def)
  have a7: "candidates (Response [Candidate (Content ''model'' [Part sample_answer])]) =
            Candidate (Content ''model'' (Part sample_answer # [])) # []"
    by simp
  show ?thesis using a3 end_to_end_success [OF a1 a2 a3 a4 a5 a6 a7]
    by (simp add: sample_answer_def)
qed

text \<open>
  C8. Once the URL is parsed and a transcript obtained, an exception the summarizer raises
  (the missing credential, a failure of the client or of the completion service, a
  response without candidate or part) leaves the handler as it is: the handler has no
  \<open>try\<close> around the call and builds no payload.
\<close>

theorem summarizer_error_propagates:
  assumes "extract_youtube_id url = Inr vid"
    and "fst (fetch_youtube_transcript w vid) = Some t"
    and "fst (summarize_transcript_with_gemini w t) = Inl e"
  shows "get_summary w url =
           (Inl e, FetchTranscript vid # snd (summarize_transcript_with_gemini w t))"
  using get_summary_Some [OF assms(1,2)] assms(3) by simp

theorem summarizer_error_propagates_witness:
  "get_summary (sample_world\<lparr>getenv := \<lambda>name. None\<rparr>) ''https://youtu.be/abc123'' =
     (Inl (EnvironmentError missing_key_message), [FetchTranscript ''abc123'']) \<and>
   get_summary
     (sample_world\<lparr>generate_content := \<lambda>cl m cs. Inl (OtherException ''ServerError'' ''503'')\<rparr>)
     ''https://youtu.be/abc123'' =
     (Inl (OtherException ''ServerError'' ''503''),
      [FetchTranscript ''abc123'', NewClient ''secret'',
       GenerateContent (Client ''secret'') ''gemini-2.5-pro''
         [Content ''user'' [Part (prompt ''Hello world'')]]])"
  using summarizer_error_propagates
    [of "''https://youtu.be/abc123''" "''abc123''" "sample_world\<lparr>getenv := \<lambda>name. None\<rparr>"
        "''Hello world''" "EnvironmentError missing_key_message"]
    summarizer_error_propagates
    [of "''https://youtu.be/abc123''" "''abc123''"
        "sample_world\<lparr>generate_content := \<lambda>cl m cs. Inl (OtherException ''ServerError'' ''503'')\<rparr>"
        "''Hello world''" "OtherException ''ServerError'' ''503''"]
  by (simp add: extract_short_link sample_world_def fetch_youtube_transcript_def
      summarize_transcript_with_gemini_def isspace_def strip_def model_name_def Let_def)



text \<open>
  C10. A payload the handler returns has one key, \<open>summary\<close> or \<open>error\<close>, and under
  \<open>error\<close> one of the two fixed messages.
\<close>

theorem payload_shape:
  assumes "fst (get_summary w url) = Inr payload"
  shows "(dom payload = {''summary''} \<or> dom payload = {''error''}) \<and>
         (\<forall>v. payload ''error'' = Some v \<longrightarrow>
            v = ''Invalid YouTube URL.'' \<or>
            v = ''Transcript not found or not available for this video.'')"
proof (cases "extract_youtube_id url")
  case (Inl e)
  then have "payload = invalid_url_payload"
    using assms by (auto simp: get_summary_Inl split: if_splits)
  then show ?thesis by (simp add: invalid_url_payload_def)
next
  case (Inr vid)
  show ?thesis
  proof (cases "fst (fetch_youtube_transcript w vid)")
    case None
    then have "payload = no_transcript_payload"
      using assms get_summary_None [OF Inr None] by simp
    then show ?thesis by (simp add: no_transcript_payload_def)
  next
    case (Some t)
    then obtain s where "payload = summary_payload s"
      using assms get_summary_Some [OF Inr Some] by (auto split: sum.splits)
    then show ?thesis by (simp add: summary_payload_def)
  qed
qed

theorem payload_shape_witness:
  "fst (get_summary sample_world ''https://youtu.be/zzz'') = Inr no_transcript_payload \<and>
   dom no_transcript_payload = {''error''} \<and>
   no_transcript_payload ''error'' =
     Some ''Transcript not found or not available for this video.''"
proof -
  have e: "extract_youtube_id ''https://youtu.be/zzz'' = Inr ''zzz''" by code_simp
  have f: "fst (fetch_youtube_transcript sample_world ''zzz'') = None"
    by (simp add: sample_world_def fetch_youtube_transcript_def)
  have h: "fst (get_summary sample_world ''https://youtu.be/zzz'') = Inr no_transcript_payload"
    by (simp add: get_summary_None [OF e f])
  show ?thesis using h payload_shape [OF h]
    by (simp add: no_transcript_payload_def)
qed


end
